theory Spec2Isabelle
  imports
    Main
    "HOL-Library.Multiset"
    "HOL-Library.Char_ord"
    "HOL-Library.List_Lexorder"
begin

section \<open>Bytes and character classes\<close>

text \<open>
  A \<^verbatim>\<open>bytes\<close> object is a list of 8-bit characters. Every byte of a match of
  \<^verbatim>\<open>IP_PATTERN\<close> is an ASCII digit or a dot, so \<^verbatim>\<open>decode('utf-8', errors='ignore')\<close>
  returns the same characters and the text of a match is used as the address string.
\<close>

type_synonym bytes = "char list"

definition is_digit :: "char \<Rightarrow> bool" where
  "is_digit c = (c \<in> set ''0123456789'')"

text \<open>\<^verbatim>\<open>\w\<close> of a bytes pattern: ASCII letters, digits and the underscore.\<close>

definition is_word :: "char \<Rightarrow> bool" where
  "is_word c =
     (c \<in> set ''abcdefghijklmnopqrstuvwxyzABCDEFGHIJKLMNOPQRSTUVWXYZ0123456789_'')"

section \<open>The backtracking matcher for \<^verbatim>\<open>IP_PATTERN\<close>\<close>

text \<open>
  A cursor in the buffer is a pair: the bytes before the cursor (nearest first) and the
  bytes after it. A matcher returns the cursors it can stop at, in the order in which the
  backtracking engine of \<^verbatim>\<open>re\<close> tries them; the engine takes the first one that lets
  the rest of the pattern succeed.
\<close>

type_synonym cursor = "bytes \<times> bytes"
type_synonym matcher = "cursor \<Rightarrow> cursor list"

definition cls :: "(char \<Rightarrow> bool) \<Rightarrow> matcher" where
  "cls P cur =
     (case snd cur of
        [] \<Rightarrow> []
      | c # rest \<Rightarrow> if P c then [(c # fst cur, rest)] else [])"

definition lit :: "char \<Rightarrow> matcher" where
  "lit c = cls (\<lambda>x. x = c)"

definition seq_m :: "matcher \<Rightarrow> matcher \<Rightarrow> matcher" where
  "seq_m p q cur = concat (map q (p cur))"

definition alt_m :: "matcher \<Rightarrow> matcher \<Rightarrow> matcher" where
  "alt_m p q cur = p cur @ q cur"

text \<open>The greedy \<^verbatim>\<open>?\<close>: one occurrence is tried before none.\<close>

definition opt_m :: "matcher \<Rightarrow> matcher" where
  "opt_m p cur = p cur @ [cur]"

text \<open>
  \<^verbatim>\<open>\b\<close>: the bytes on the two sides of the cursor differ in being word characters; the
  start and the end of the buffer count as a non-word character.
\<close>

definition word_before :: "cursor \<Rightarrow> bool" where
  "word_before cur = (case fst cur of [] \<Rightarrow> False | c # _ \<Rightarrow> is_word c)"

definition word_after :: "cursor \<Rightarrow> bool" where
  "word_after cur = (case snd cur of [] \<Rightarrow> False | c # _ \<Rightarrow> is_word c)"

definition word_boundary :: matcher where
  "word_boundary cur = (if word_before cur \<noteq> word_after cur then [cur] else [])"

text \<open>\<^verbatim>\<open>(?:25[0-5]|2[0-4][0-9]|[01]?[0-9][0-9]?)\<close>\<close>

definition octet :: matcher where
  "octet =
     alt_m (seq_m (lit CHR ''2'') (seq_m (lit CHR ''5'') (cls (\<lambda>c. c \<in> set ''012345''))))
    (alt_m (seq_m (lit CHR ''2'') (seq_m (cls (\<lambda>c. c \<in> set ''01234'')) (cls is_digit)))
           (seq_m (opt_m (cls (\<lambda>c. c \<in> set ''01''))) (seq_m (cls is_digit) (opt_m (cls is_digit)))))"

definition octet_dot :: matcher where
  "octet_dot = seq_m octet (lit CHR ''.'')"

text \<open>\<^verbatim>\<open>\b(?:OCTET\.){3}OCTET\b\<close>\<close>

definition IP_PATTERN :: matcher where
  "IP_PATTERN =
     seq_m word_boundary
    (seq_m octet_dot (seq_m octet_dot (seq_m octet_dot (seq_m octet word_boundary))))"

text \<open>The text between two cursors of one buffer, the second one further right.\<close>

definition matched :: "cursor \<Rightarrow> cursor \<Rightarrow> bytes" where
  "matched start stop = rev (take (length (fst stop) - length (fst start)) (fst stop))"

lemma cls_shorter: "c' \<in> set (cls P c) \<Longrightarrow> length (snd c') < length (snd c)"
  by (cases c) (auto simp: cls_def split: list.splits if_splits)

lemma seq_m_elem: "c'' \<in> set (seq_m p q c) \<longleftrightarrow> (\<exists>c' \<in> set (p c). c'' \<in> set (q c'))"
  by (auto simp: seq_m_def)

lemma alt_m_elem: "c' \<in> set (alt_m p q c) \<longleftrightarrow> c' \<in> set (p c) \<or> c' \<in> set (q c)"
  by (simp add: alt_m_def)

lemma opt_m_elem: "c' \<in> set (opt_m p c) \<longleftrightarrow> c' \<in> set (p c) \<or> c' = c"
  by (auto simp: opt_m_def)

lemma word_boundary_elem: "c' \<in> set (word_boundary c) \<Longrightarrow> c' = c"
  by (simp add: word_boundary_def split: if_splits)

lemma octet_shorter: "c' \<in> set (octet c) \<Longrightarrow> length (snd c') < length (snd c)"
  unfolding octet_def lit_def
  by (fastforce simp: seq_m_elem alt_m_elem opt_m_elem dest!: cls_shorter)

lemma octet_dot_shorter: "c' \<in> set (octet_dot c) \<Longrightarrow> length (snd c') < length (snd c)"
  unfolding octet_dot_def lit_def
  by (fastforce simp: seq_m_elem dest!: cls_shorter octet_shorter)

lemma IP_PATTERN_shorter: "c' \<in> set (IP_PATTERN c) \<Longrightarrow> length (snd c') < length (snd c)"
  unfolding IP_PATTERN_def
  by (fastforce simp: seq_m_elem dest!: word_boundary_elem octet_dot_shorter octet_shorter)

text \<open>
  \<^verbatim>\<open>IP_PATTERN.findall\<close>: the leftmost match from the cursor on, then the search goes on
  where that match ended; where no match starts, the cursor moves one byte to the right.
  A match of the pattern is never empty, so the rule of \<^verbatim>\<open>re\<close> for empty matches is not
  needed.
\<close>

function findall_from :: "cursor \<Rightarrow> bytes list" where
  "findall_from cur =
     (case IP_PATTERN cur of
        stop # _ \<Rightarrow> matched cur stop # findall_from stop
      | [] \<Rightarrow>
          (case snd cur of
             [] \<Rightarrow> []
           | c # rest \<Rightarrow> findall_from (c # fst cur, rest)))"
  by pat_completeness auto
termination
proof (relation "measure (\<lambda>cur. length (snd cur))")
  show "wf (measure (\<lambda>cur. length (snd cur)))" by simp
next
  fix cur :: cursor and stop rest
  assume "IP_PATTERN cur = stop # rest"
  then have "stop \<in> set (IP_PATTERN cur)" by simp
  then show "(stop, cur) \<in> measure (\<lambda>cur. length (snd cur))"
    by (simp add: IP_PATTERN_shorter)
next
  fix cur :: cursor and c rest
  assume "snd cur = c # rest"
  then show "((c # fst cur, rest), cur) \<in> measure (\<lambda>cur. length (snd cur))" by simp
qed

declare findall_from.simps [simp del]

definition findall :: "bytes \<Rightarrow> bytes list" where
  "findall chunk = findall_from ([], chunk)"

section \<open>The address library\<close>

text \<open>
  \<^verbatim>\<open>ipaddress\<close> is the standard library, modelled here as far as \<^verbatim>\<open>validate_ip\<close> uses
  it. \<^verbatim>\<open>ip_address\<close> tries an IPv4 address first and an IPv6 address next. An IPv6 address
  is in none of the three IPv4 networks, so \<^verbatim>\<open>validate_ip\<close> is false for it, as it is for
  a string that is no address (\<^verbatim>\<open>ValueError\<close>): the model returns \<open>None\<close> for both, and
  the packed 32-bit integer of an IPv4 address otherwise.
\<close>

fun split_on :: "char \<Rightarrow> string \<Rightarrow> string list" where
  "split_on d [] = [[]]"
| "split_on d (c # cs) =
     (if c = d then [] # split_on d cs
      else (case split_on d cs of [] \<Rightarrow> [[c]] | p # ps \<Rightarrow> (c # p) # ps))"

definition digit_val :: "char \<Rightarrow> int" where
  "digit_val c = int (of_char c) - 48"

text \<open>\<^verbatim>\<open>int(octet_str, 10)\<close> on a string of decimal digits.\<close>

definition int_of_digits :: "string \<Rightarrow> int" where
  "int_of_digits s = foldl (\<lambda>acc c. 10 * acc + digit_val c) 0 s"

text \<open>
  \<^verbatim>\<open>IPv4Address._parse_octet\<close>: not empty, decimal digits only, at most three of them, no
  leading zero but in \<^verbatim>\<open>'0'\<close> itself, at most 255.
\<close>

definition parse_octet :: "string \<Rightarrow> int option" where
  "parse_octet octet_str =
     (if octet_str = [] then None
      else if \<not> list_all is_digit octet_str then None
      else if length octet_str > 3 then None
      else if octet_str \<noteq> ''0'' \<and> hd octet_str = CHR ''0'' then None
      else if int_of_digits octet_str > 255 then None
      else Some (int_of_digits octet_str))"

definition ip_address :: "string \<Rightarrow> int option" where
  "ip_address ip =
     (case map parse_octet (split_on CHR ''.'' ip) of
        [Some a, Some b, Some c, Some d] \<Rightarrow> Some (((a * 256 + b) * 256 + c) * 256 + d)
      | _ \<Rightarrow> None)"

text \<open>A network is its address and its mask; \<^verbatim>\<open>in\<close> compares the masked address.\<close>

record ip_network =
  network_address :: int
  netmask :: int

definition in_network :: "int \<Rightarrow> ip_network \<Rightarrow> bool" where
  "in_network ip net = (and ip (netmask net) = network_address net)"

definition net_10 :: ip_network where
  "net_10 = \<lparr>network_address = 167772160, netmask = 4278190080\<rparr>"

definition net_172_16 :: ip_network where
  "net_172_16 = \<lparr>network_address = 2886729728, netmask = 4293918720\<rparr>"

definition net_192_168 :: ip_network where
  "net_192_168 = \<lparr>network_address = 3232235520, netmask = 4294901760\<rparr>"

definition PRIVATE_NETWORKS :: "ip_network list" where
  "PRIVATE_NETWORKS = [net_10, net_172_16, net_192_168]"

definition is_unspecified :: "int \<Rightarrow> bool" where
  "is_unspecified ip = (ip = 0)"

text \<open>\<^verbatim>\<open>240.0.0.0/4\<close>\<close>

definition is_reserved :: "int \<Rightarrow> bool" where
  "is_reserved ip = in_network ip \<lparr>network_address = 4026531840, netmask = 4026531840\<rparr>"

text \<open>\<^verbatim>\<open>224.0.0.0/4\<close>\<close>

definition is_multicast :: "int \<Rightarrow> bool" where
  "is_multicast ip = in_network ip \<lparr>network_address = 3758096384, netmask = 4026531840\<rparr>"

section \<open>\<^verbatim>\<open>IPExtractor\<close>\<close>

definition validate_ip :: "string \<Rightarrow> bool" where
  "validate_ip ip =
     (case ip_address ip of
        None \<Rightarrow> False
      | Some ip_obj \<Rightarrow>
          \<not> (is_unspecified ip_obj \<or> is_reserved ip_obj \<or> is_multicast ip_obj)
          \<and> list_ex (in_network ip_obj) PRIVATE_NETWORKS)"

text \<open>
  \<^verbatim>\<open>_process_chunk\<close>: the set of the matches of the chunk, each put into the private set
  when \<^verbatim>\<open>validate_ip\<close> holds and into the public set otherwise.
\<close>

definition process_chunk :: "bytes \<Rightarrow> string set \<times> string set" where
  "process_chunk chunk =
     (let ips = set (findall chunk)
      in (Set.filter validate_ip ips, Set.filter (\<lambda>ip. \<not> validate_ip ip) ips))"

text \<open>
  What \<^verbatim>\<open>extract_ips_from_file\<close> sees of the machine: whether the path is a regular
  file, the bytes of the file, whether \<^verbatim>\<open>open\<close> succeeds, the call of \<^verbatim>\<open>read\<close>
  (counted from 0) that raises an I/O error, if any does, and the size of the largest
  bytes object for which there is memory.
\<close>

record file_env =
  is_file :: bool
  content :: bytes
  open_ok :: bool
  read_error_at :: "nat option"
  read_limit :: int

datatype error = OSError | ValueError | OverflowError | MemoryError

text \<open>The largest \<^verbatim>\<open>Py_ssize_t\<close> of a 64-bit build.\<close>

definition PY_SSIZE_T_MAX :: int where
  "PY_SSIZE_T_MAX = 9223372036854775807"

text \<open>
  \<^verbatim>\<open>file.read(chunk_size)\<close> of a buffered binary file, on the rest of the file. A size
  below \<^verbatim>\<open>-1\<close> is refused with \<^verbatim>\<open>ValueError\<close>, and \<^verbatim>\<open>-1\<close> reads all the rest. For any
  other size the bytes object of the result is allocated with that size before anything
  is read: a size that is no \<^verbatim>\<open>Py_ssize_t\<close>, or one that leaves no room for the 33 bytes
  of the object header, raises \<^verbatim>\<open>OverflowError\<close>, and one for which there is no memory
  raises \<^verbatim>\<open>MemoryError\<close>. Otherwise the result is the next \<^verbatim>\<open>chunk_size\<close> bytes, fewer at
  the end of the file.
\<close>

definition file_read :: "file_env \<Rightarrow> int \<Rightarrow> bytes \<Rightarrow> error + bytes" where
  "file_read env chunk_size rest =
     (if chunk_size < - 1 then Inl ValueError
      else if chunk_size = - 1 then
        (if int (length rest) \<le> read_limit env then Inr rest else Inl MemoryError)
      else if chunk_size > PY_SSIZE_T_MAX - 33 then Inl OverflowError
      else if chunk_size > read_limit env then Inl MemoryError
      else Inr (take (nat chunk_size) rest))"

text \<open>
  The \<^verbatim>\<open>while True\<close> loop: the chunks in the order they are read and submitted, each one
  the bytes of one \<^verbatim>\<open>read\<close> and nothing else; \<open>k\<close> counts the calls of \<^verbatim>\<open>read\<close> and
  \<open>rest\<close> is what the file holds from its position on. An exception of a \<^verbatim>\<open>read\<close> ends
  the loop.
\<close>

function read_chunks :: "file_env \<Rightarrow> int \<Rightarrow> nat \<Rightarrow> bytes \<Rightarrow> error + bytes list" where
  "read_chunks env chunk_size k rest =
     (if read_error_at env = Some k then Inl OSError
      else
        (case file_read env chunk_size rest of
           Inl e \<Rightarrow> Inl e
         | Inr chunk \<Rightarrow>
             if chunk = [] then Inr []
             else
               (case read_chunks env chunk_size (Suc k) (drop (length chunk) rest) of
                  Inl e \<Rightarrow> Inl e
                | Inr chunks \<Rightarrow> Inr (chunk # chunks))))"
  by pat_completeness auto
termination
proof (relation "measure (\<lambda>(env, chunk_size, k, rest). length rest)")
  show "wf (measure (\<lambda>(env, chunk_size, k, rest). length rest))" by simp
next
  fix env :: file_env and chunk_size :: int and k :: nat and rest chunk :: bytes
  assume "file_read env chunk_size rest = Inr chunk" and "chunk \<noteq> []"
  then have "rest \<noteq> []" and "0 < length chunk"
    by (auto simp: file_read_def split: if_splits)
  then show "((env, chunk_size, Suc k, drop (length chunk) rest), env, chunk_size, k, rest)
      \<in> measure (\<lambda>(env, chunk_size, k, rest). length rest)"
    by simp
qed

declare read_chunks.simps [simp del]

text \<open>
  The loop over \<^verbatim>\<open>as_completed(futures)\<close>: each result is merged into the two sets with
  \<^verbatim>\<open>update\<close>.
\<close>

definition update_sets ::
  "string set \<times> string set \<Rightarrow> string set \<times> string set \<Rightarrow> string set \<times> string set" where
  "update_sets chunk_result acc = (fst acc \<union> fst chunk_result, snd acc \<union> snd chunk_result)"

definition collect_results :: "(string set \<times> string set) list \<Rightarrow> string set \<times> string set" where
  "collect_results results = fold update_sets results ({}, {})"

text \<open>
  \<^verbatim>\<open>extract_ips_from_file\<close>, with the order in which the futures complete as a parameter:
  \<open>completion\<close> rearranges the list of the results of the submitted chunks. An exception
  inside the \<^verbatim>\<open>try\<close> block gives the empty pair. \<^verbatim>\<open>sorted\<close> orders strings by their
  characters, as the order on lists of characters does.
\<close>

definition extract_ips_completed ::
  "((string set \<times> string set) list \<Rightarrow> (string set \<times> string set) list)
    \<Rightarrow> file_env \<Rightarrow> int \<Rightarrow> string list \<times> string list" where
  "extract_ips_completed completion env chunk_size =
     (if \<not> is_file env \<or> length (content env) = 0 then ([], [])
      else if \<not> open_ok env then ([], [])
      else
        (case read_chunks env chunk_size 0 (content env) of
           Inl e \<Rightarrow> ([], [])
         | Inr chunks \<Rightarrow>
             (let (private_ips, public_ips) = collect_results (completion (map process_chunk chunks))
              in (sorted_list_of_set private_ips, sorted_list_of_set public_ips))))"

text \<open>The futures completing in the order of submission.\<close>

definition extract_ips_from_file :: "file_env \<Rightarrow> int \<Rightarrow> string list \<times> string list" where
  "extract_ips_from_file = extract_ips_completed (\<lambda>results. results)"

text \<open>
  A readable file with the given bytes, on a machine with memory for a bytes object of
  1 GiB (the default chunk size is 1 MiB).
\<close>

definition readable_file :: "bytes \<Rightarrow> file_env" where
  "readable_file data =
     \<lparr>is_file = True, content = data, open_ok = True, read_error_at = None,
      read_limit = 1073741824\<rparr>"


section \<open>Notions used in the properties\<close>

text \<open>
  The text of an octet as the pattern admits it: one to three decimal digits with a value
  of at most 255. A leading zero is redundant when more digits follow it.
\<close>

definition octet_text :: "string \<Rightarrow> bool" where
  "octet_text s = (s \<noteq> [] \<and> length s \<le> 3 \<and> list_all is_digit s \<and> int_of_digits s \<le> 255)"

definition redundant_leading_zero :: "string \<Rightarrow> bool" where
  "redundant_leading_zero s = (1 < length s \<and> hd s = CHR ''0'')"

text \<open>Four such octets with dots between them.\<close>

definition dotted_quad :: "string \<Rightarrow> bool" where
  "dotted_quad s =
     (\<exists>a b c d. s = a @ ''.'' @ b @ ''.'' @ c @ ''.'' @ d
        \<and> octet_text a \<and> octet_text b \<and> octet_text c \<and> octet_text d)"

text \<open>The matcher went from the first cursor to the second one over the given bytes.\<close>

definition consumes :: "cursor \<Rightarrow> bytes \<Rightarrow> cursor \<Rightarrow> bool" where
  "consumes start t stop = (fst stop = rev t @ fst start \<and> snd start = t @ snd stop)"

text \<open>
  A token stands at a cursor of the input when the bytes after the cursor begin with it
  and neither the byte before the cursor nor the byte after the token is a word
  character; this is what \<^verbatim>\<open>\b\<close> asks on the two sides of a token that begins and
  ends with a digit. It occurs in the input when it stands at one of its cursors.
\<close>

definition token_at :: "bytes \<Rightarrow> cursor \<Rightarrow> bool" where
  "token_at t cur =
     (take (length t) (snd cur) = t
      \<and> \<not> word_before cur
      \<and> \<not> word_after (rev t @ fst cur, drop (length t) (snd cur)))"

fun cursors :: "cursor \<Rightarrow> cursor list" where
  "cursors (before, []) = [(before, [])]"
| "cursors (before, c # rest) = (before, c # rest) # cursors (c # before, rest)"

definition occurs_delimited :: "bytes \<Rightarrow> bytes \<Rightarrow> bool" where
  "occurs_delimited t s = list_ex (token_at t) (cursors ([], s))"






section \<open>The matches of the pattern\<close>

lemma consumes_refl: "consumes c [] c"
  by (simp add: consumes_def)

lemma consumes_trans: "consumes a t b \<Longrightarrow> consumes b u c \<Longrightarrow> consumes a (t @ u) c"
  by (simp add: consumes_def)

lemma consumes_matched: "consumes start t stop \<Longrightarrow> matched start stop = t"
  by (simp add: consumes_def matched_def)

lemma cls_elem: "c' \<in> set (cls P c) \<Longrightarrow> \<exists>x. P x \<and> consumes c [x] c'"
  by (cases c) (auto simp: cls_def consumes_def split: list.splits if_splits)

lemma lit_elem: "c' \<in> set (lit x c) \<Longrightarrow> consumes c [x] c'"
  unfolding lit_def by (drule cls_elem) auto

lemma digit_val_bounds: "is_digit c \<Longrightarrow> 0 \<le> digit_val c \<and> digit_val c \<le> 9"
  by (auto simp: is_digit_def digit_val_def)

lemma digit_val_05: "c \<in> set ''012345'' \<Longrightarrow> is_digit c \<and> digit_val c \<le> 5"
  by (auto simp: is_digit_def digit_val_def)

lemma digit_val_04: "c \<in> set ''01234'' \<Longrightarrow> is_digit c \<and> digit_val c \<le> 4"
  by (auto simp: is_digit_def digit_val_def)

lemma digit_val_01: "c \<in> set ''01'' \<Longrightarrow> is_digit c \<and> digit_val c \<le> 1"
  by (auto simp: is_digit_def digit_val_def)

lemma digit_val_2: "is_digit CHR ''2'' \<and> digit_val CHR ''2'' = 2"
  by (simp add: is_digit_def digit_val_def)

lemma digit_val_5: "is_digit CHR ''5'' \<and> digit_val CHR ''5'' = 5"
  by (simp add: is_digit_def digit_val_def)

lemma octet_text_1: "is_digit y \<Longrightarrow> octet_text [y]"
  using digit_val_bounds [of y] by (simp add: octet_text_def int_of_digits_def)

lemma octet_text_2: "is_digit y \<Longrightarrow> is_digit z \<Longrightarrow> octet_text [y, z]"
  using digit_val_bounds [of y] digit_val_bounds [of z]
  by (simp add: octet_text_def int_of_digits_def)

lemma octet_text_3:
  "is_digit x \<Longrightarrow> is_digit y \<Longrightarrow> is_digit z
    \<Longrightarrow> 100 * digit_val x + 10 * digit_val y + digit_val z \<le> 255 \<Longrightarrow> octet_text [x, y, z]"
  by (simp add: octet_text_def int_of_digits_def)

lemma alt1_elem:
  assumes "c' \<in> set (seq_m (lit CHR ''2'') (seq_m (lit CHR ''5'') (cls (\<lambda>c. c \<in> set ''012345''))) c)"
  shows "\<exists>t. octet_text t \<and> consumes c t c'"
proof -
  from assms obtain c1 c2 where s: "c1 \<in> set (lit CHR ''2'' c)" "c2 \<in> set (lit CHR ''5'' c1)"
    "c' \<in> set (cls (\<lambda>c. c \<in> set ''012345'') c2)"
    by (auto simp: seq_m_elem)
  from s(3) obtain z where z: "z \<in> set ''012345''" "consumes c2 [z] c'"
    by (blast dest: cls_elem)
  from s(1,2) z(2) have "consumes c ([CHR ''2''] @ [CHR ''5''] @ [z]) c'"
    by (blast intro: consumes_trans dest: lit_elem)
  moreover have "octet_text [CHR ''2'', CHR ''5'', z]"
    using digit_val_05 [OF z(1)] digit_val_2 digit_val_5 by (intro octet_text_3) simp_all
  ultimately show ?thesis by auto
qed

lemma alt2_elem:
  assumes "c' \<in> set (seq_m (lit CHR ''2'') (seq_m (cls (\<lambda>c. c \<in> set ''01234'')) (cls is_digit)) c)"
  shows "\<exists>t. octet_text t \<and> consumes c t c'"
proof -
  from assms obtain c1 c2 where s: "c1 \<in> set (lit CHR ''2'' c)"
    "c2 \<in> set (cls (\<lambda>c. c \<in> set ''01234'') c1)" "c' \<in> set (cls is_digit c2)"
    by (auto simp: seq_m_elem)
  from s(2) obtain y where y: "y \<in> set ''01234''" "consumes c1 [y] c2"
    by (blast dest: cls_elem)
  from s(3) obtain z where z: "is_digit z" "consumes c2 [z] c'"
    by (blast dest: cls_elem)
  from s(1) y(2) z(2) have "consumes c ([CHR ''2''] @ [y] @ [z]) c'"
    by (blast intro: consumes_trans dest: lit_elem)
  moreover have "octet_text [CHR ''2'', y, z]"
    using digit_val_04 [OF y(1)] digit_val_bounds [OF z(1)] z(1) digit_val_2
    by (intro octet_text_3) simp_all
  ultimately show ?thesis by auto
qed

lemma alt3_elem:
  assumes "c' \<in> set (seq_m (opt_m (cls (\<lambda>c. c \<in> set ''01''))) (seq_m (cls is_digit) (opt_m (cls is_digit))) c)"
  shows "\<exists>t. octet_text t \<and> consumes c t c'"
proof -
  from assms obtain c1 c2 where s: "c1 \<in> set (opt_m (cls (\<lambda>c. c \<in> set ''01'')) c)"
    "c2 \<in> set (cls is_digit c1)" "c' \<in> set (opt_m (cls is_digit) c2)"
    by (auto simp: seq_m_elem)
  from s(2) obtain y where y: "is_digit y" "consumes c1 [y] c2"
    by (blast dest: cls_elem)
  from s(3) have tl: "c' = c2 \<or> (\<exists>z. is_digit z \<and> consumes c2 [z] c')"
    by (auto simp: opt_m_elem dest: cls_elem)
  from s(1) have hd: "c1 = c \<or> (\<exists>x. x \<in> set ''01'' \<and> consumes c [x] c1)"
    by (auto simp: opt_m_elem dest: cls_elem)
  show ?thesis
  proof (cases "c1 = c")
    case True
    show ?thesis
    proof (cases "c' = c2")
      case True
      with \<open>c1 = c\<close> y octet_text_1 show ?thesis by blast
    next
      case False
      with tl obtain z where z: "is_digit z" "consumes c2 [z] c'" by blast
      with y \<open>c1 = c\<close> have "consumes c ([y] @ [z]) c'"
        by (blast intro: consumes_trans)
      with y(1) z(1) octet_text_2 [of y z] show ?thesis by auto
    qed
  next
    case False
    with hd obtain x where x: "x \<in> set ''01''" "consumes c [x] c1" by blast
    show ?thesis
    proof (cases "c' = c2")
      case True
      with x y have "consumes c ([x] @ [y]) c'"
        by (blast intro: consumes_trans)
      with digit_val_01 [OF x(1)] y(1) octet_text_2 [of x y] show ?thesis by auto
    next
      case False
      with tl obtain z where z: "is_digit z" "consumes c2 [z] c'" by blast
      with x y have "consumes c ([x] @ [y] @ [z]) c'"
        by (blast intro: consumes_trans)
      moreover have "octet_text [x, y, z]"
        using digit_val_01 [OF x(1)] digit_val_bounds [OF y(1)] digit_val_bounds [OF z(1)] y(1) z(1)
        by (intro octet_text_3) simp_all
      ultimately show ?thesis by auto
    qed
  qed
qed

lemma octet_elem: "c' \<in> set (octet c) \<Longrightarrow> \<exists>t. octet_text t \<and> consumes c t c'"
  unfolding octet_def alt_m_elem
  using alt1_elem alt2_elem alt3_elem by blast

lemma octet_dot_elem:
  "c' \<in> set (octet_dot c) \<Longrightarrow> \<exists>t. octet_text t \<and> consumes c (t @ ''.'') c'"
  unfolding octet_dot_def seq_m_elem
  by (blast dest: octet_elem lit_elem intro: consumes_trans)

lemma IP_PATTERN_elem:
  assumes "c' \<in> set (IP_PATTERN c)"
  shows "\<exists>t. dotted_quad t \<and> consumes c t c'"
proof -
  from assms obtain c0 c1 c2 c3 c4 where s:
    "c0 \<in> set (word_boundary c)" "c1 \<in> set (octet_dot c0)" "c2 \<in> set (octet_dot c1)"
    "c3 \<in> set (octet_dot c2)" "c4 \<in> set (octet c3)" "c' \<in> set (word_boundary c4)"
    unfolding IP_PATTERN_def seq_m_elem by blast
  from s(1,6) have e: "c0 = c" "c' = c4" by (auto dest: word_boundary_elem)
  from s(2) e obtain a where a: "octet_text a" "consumes c (a @ ''.'') c1"
    by (blast dest: octet_dot_elem)
  from s(3) obtain b where b: "octet_text b" "consumes c1 (b @ ''.'') c2"
    by (blast dest: octet_dot_elem)
  from s(4) obtain x where x: "octet_text x" "consumes c2 (x @ ''.'') c3"
    by (blast dest: octet_dot_elem)
  from s(5) e obtain d where d: "octet_text d" "consumes c3 d c'"
    by (blast dest: octet_elem)
  from a(2) b(2) x(2) d(2) have "consumes c ((a @ ''.'') @ (b @ ''.'') @ (x @ ''.'') @ d) c'"
    by (blast intro: consumes_trans)
  then have "consumes c (a @ ''.'' @ b @ ''.'' @ x @ ''.'' @ d) c'" by simp
  moreover from a(1) b(1) x(1) d(1) have "dotted_quad (a @ ''.'' @ b @ ''.'' @ x @ ''.'' @ d)"
    unfolding dotted_quad_def by blast
  ultimately show ?thesis by blast
qed

lemma findall_from_dotted_quad: "m \<in> set (findall_from cur) \<Longrightarrow> dotted_quad m"
proof (induction cur rule: findall_from.induct)
  case (1 cur)
  show ?case
  proof (cases "IP_PATTERN cur")
    case (Cons stop more)
    then have "stop \<in> set (IP_PATTERN cur)" by simp
    then obtain t where t: "dotted_quad t" "consumes cur t stop"
      by (blast dest: IP_PATTERN_elem)
    from "1.prems" Cons have "m = matched cur stop \<or> m \<in> set (findall_from stop)"
      by (simp add: findall_from.simps [of cur])
    with t "1.IH"(2) [OF Cons] show ?thesis
      by (auto simp: consumes_matched)
  next
    case Nil
    show ?thesis
    proof (cases "snd cur")
      case Nil
      with \<open>IP_PATTERN cur = []\<close> "1.prems" show ?thesis
        by (simp add: findall_from.simps [of cur])
    next
      case (Cons c rest)
      with \<open>IP_PATTERN cur = []\<close> "1.prems" have "m \<in> set (findall_from (c # fst cur, rest))"
        by (simp add: findall_from.simps [of cur])
      with "1.IH"(1) [OF \<open>IP_PATTERN cur = []\<close> Cons] show ?thesis .
    qed
  qed
qed
























text \<open>
  C9 as stated does not hold. The third alternative of an octet, \<^verbatim>\<open>[01]?[0-9][0-9]?\<close>,
  admits a leading zero: in the chunk below the pattern matches \<^verbatim>\<open>010.1.1.1\<close>, whose first
  octet is written \<^verbatim>\<open>010\<close>, and the chunk processor puts it into the public set.
\<close>

theorem leading_zero_matched:
  "findall ''host 010.1.1.1 up'' = [''010.1.1.1'']
   \<and> split_on CHR ''.'' ''010.1.1.1'' = [''010'', ''1'', ''1'', ''1'']
   \<and> redundant_leading_zero ''010''
   \<and> process_chunk ''host 010.1.1.1 up'' = ({}, {''010.1.1.1''})"
  by code_simp

text \<open>
  C9, as the code has it. Every match of the pattern in a chunk is four octets with dots
  between them, each octet one to three decimal digits with a value of at most 255;
  an octet may begin with zeros.
\<close>

theorem match_is_dotted_quad:
  assumes "m \<in> set (findall chunk)"
  shows "\<exists>a b c d. m = a @ ''.'' @ b @ ''.'' @ c @ ''.'' @ d
    \<and> octet_text a \<and> octet_text b \<and> octet_text c \<and> octet_text d"
  using assms findall_from_dotted_quad [of m "([], chunk)"]
  by (simp add: findall_def dotted_quad_def)

theorem match_is_dotted_quad_witness:
  "''010.1.1.1'' \<in> set (findall ''host 010.1.1.1 up'')
   \<and> (\<exists>a b c d. ''010.1.1.1'' = a @ ''.'' @ b @ ''.'' @ c @ ''.'' @ d
        \<and> octet_text a \<and> octet_text b \<and> octet_text c \<and> octet_text d)"
proof -
  have "findall ''host 010.1.1.1 up'' = [''010.1.1.1'']" by code_simp
  then have m: "''010.1.1.1'' \<in> set (findall ''host 010.1.1.1 up'')" by simp
  with match_is_dotted_quad [OF m] show ?thesis by blast
qed

section \<open>The chunk processor\<close>

lemma private_valid: "ip \<in> fst (process_chunk c) \<Longrightarrow> validate_ip ip"
  by (simp add: process_chunk_def Let_def)

lemma public_invalid: "ip \<in> snd (process_chunk c) \<Longrightarrow> \<not> validate_ip ip"
  by (simp add: process_chunk_def Let_def)

text \<open>
  C8. The classifier is \<^verbatim>\<open>validate_ip\<close>: an address is put into the private set when it
  holds and into the public set when it does not. Run again on a member of the private
  set of a chunk it holds again, and on a member of the public set it fails again.
\<close>

theorem classification_stable:
  "(ip \<in> fst (process_chunk chunk) \<longrightarrow> validate_ip ip)
   \<and> (ip \<in> snd (process_chunk chunk) \<longrightarrow> \<not> validate_ip ip)"
  by (simp add: process_chunk_def Let_def)

theorem classification_stable_witness:
  "''10.0.0.5'' \<in> fst (process_chunk ''10.0.0.5 8.8.8.8'') \<and> validate_ip ''10.0.0.5''
   \<and> ''8.8.8.8'' \<in> snd (process_chunk ''10.0.0.5 8.8.8.8'') \<and> \<not> validate_ip ''8.8.8.8''"
proof -
  have m: "process_chunk ''10.0.0.5 8.8.8.8'' = ({''10.0.0.5''}, {''8.8.8.8''})"
    by code_simp
  from m have a: "''10.0.0.5'' \<in> fst (process_chunk ''10.0.0.5 8.8.8.8'')" by simp
  from m have b: "''8.8.8.8'' \<in> snd (process_chunk ''10.0.0.5 8.8.8.8'')" by simp
  from a classification_stable [of "''10.0.0.5''" "''10.0.0.5 8.8.8.8''"]
  have "validate_ip ''10.0.0.5''" by blast
  moreover from b classification_stable [of "''8.8.8.8''" "''10.0.0.5 8.8.8.8''"]
  have "\<not> validate_ip ''8.8.8.8''" by blast
  ultimately show ?thesis using a b by blast
qed

text \<open>
  C3 as stated does not hold. The chunk processor has two branches only: a match for which
  \<^verbatim>\<open>validate_ip\<close> fails is added to the public set. For the chunk below the matches
  \<^verbatim>\<open>0.0.0.0\<close> and \<^verbatim>\<open>224.0.0.1\<close> are both in the public set.
\<close>

theorem invalid_matches_are_public:
  "process_chunk ''0.0.0.0 224.0.0.1'' = ({}, {''0.0.0.0'', ''224.0.0.1''})
   \<and> findall ''0.0.0.0 224.0.0.1'' = [''0.0.0.0'', ''224.0.0.1'']"
  by code_simp

text \<open>
  C3, as the code has it. For every chunk the private set and the public set together are
  the set of the matches of the chunk and they share no member: no match is dropped. A
  match that fails \<^verbatim>\<open>validate_ip\<close> is in the public set and a match that passes it is in
  the private set.
\<close>

theorem every_match_classified:
  "fst (process_chunk chunk) \<union> snd (process_chunk chunk) = set (findall chunk)
   \<and> fst (process_chunk chunk) \<inter> snd (process_chunk chunk) = {}
   \<and> (m \<in> set (findall chunk) \<and> \<not> validate_ip m \<longrightarrow> m \<in> snd (process_chunk chunk))
   \<and> (m \<in> set (findall chunk) \<and> validate_ip m \<longrightarrow> m \<in> fst (process_chunk chunk))"
  by (auto simp: process_chunk_def Let_def)

theorem every_match_classified_witness:
  "''0.0.0.0'' \<in> set (findall ''0.0.0.0 10.0.0.5'') \<and> \<not> validate_ip ''0.0.0.0''
   \<and> ''0.0.0.0'' \<in> snd (process_chunk ''0.0.0.0 10.0.0.5'')
   \<and> ''10.0.0.5'' \<in> set (findall ''0.0.0.0 10.0.0.5'') \<and> validate_ip ''10.0.0.5''
   \<and> ''10.0.0.5'' \<in> fst (process_chunk ''0.0.0.0 10.0.0.5'')"
proof -
  have f: "findall ''0.0.0.0 10.0.0.5'' = [''0.0.0.0'', ''10.0.0.5'']" by code_simp
  have v: "\<not> validate_ip ''0.0.0.0''" "validate_ip ''10.0.0.5''" by code_simp+
  from f have a: "''0.0.0.0'' \<in> set (findall ''0.0.0.0 10.0.0.5'')"
    and b: "''10.0.0.5'' \<in> set (findall ''0.0.0.0 10.0.0.5'')" by simp_all
  from a v every_match_classified [of "''0.0.0.0 10.0.0.5''" "''0.0.0.0''"]
  have "''0.0.0.0'' \<in> snd (process_chunk ''0.0.0.0 10.0.0.5'')" by blast
  moreover from b v every_match_classified [of "''0.0.0.0 10.0.0.5''" "''10.0.0.5''"]
  have "''10.0.0.5'' \<in> fst (process_chunk ''0.0.0.0 10.0.0.5'')" by blast
  ultimately show ?thesis using a b v by blast
qed

section \<open>The merge of the chunk results\<close>

lemma fold_update_sets:
  "fold update_sets rs acc = (fst acc \<union> \<Union>(fst ` set rs), snd acc \<union> \<Union>(snd ` set rs))"
  by (induction rs arbitrary: acc) (auto simp: update_sets_def)

lemma collect_results_eq:
  "collect_results rs = (\<Union>(fst ` set rs), \<Union>(snd ` set rs))"
  by (simp add: collect_results_def fold_update_sets)

lemma collect_results_mset:
  "mset rs = mset rs' \<Longrightarrow> collect_results rs = collect_results rs'"
  using mset_eq_setD [of rs rs'] by (simp add: collect_results_eq)

lemma finite_process_chunk: "finite (fst (process_chunk c)) \<and> finite (snd (process_chunk c))"
  by (simp add: process_chunk_def Let_def)

lemma extract_ok:
  assumes "is_file env" "content env \<noteq> []" "open_ok env"
    and "read_chunks env cs 0 (content env) = Inr chunks"
  shows "extract_ips_from_file env cs =
    (sorted_list_of_set (\<Union>(fst ` process_chunk ` set chunks)),
     sorted_list_of_set (\<Union>(snd ` process_chunk ` set chunks)))"
  using assms
  by (simp add: extract_ips_from_file_def extract_ips_completed_def collect_results_eq image_image)

lemma extract_failed:
  assumes "\<not> is_file env \<or> content env = [] \<or> \<not> open_ok env
     \<or> read_chunks env cs 0 (content env) = Inl e"
  shows "extract_ips_completed completion env cs = ([], [])"
  using assms by (auto simp: extract_ips_completed_def)

lemma extract_cases:
  obtains "extract_ips_from_file env cs = ([], [])"
  | chunks where "extract_ips_from_file env cs =
    (sorted_list_of_set (\<Union>(fst ` process_chunk ` set chunks)),
     sorted_list_of_set (\<Union>(snd ` process_chunk ` set chunks)))"
proof (cases "read_chunks env cs 0 (content env)")
  case (Inl e)
  then show ?thesis using that(1) extract_failed [of env cs e "\<lambda>r. r"]
    by (simp add: extract_ips_from_file_def)
next
  case (Inr chunks)
  show ?thesis
  proof (cases "is_file env \<and> content env \<noteq> [] \<and> open_ok env")
    case True
    then show ?thesis using that(2) extract_ok Inr by blast
  next
    case False
    then show ?thesis using that(1) extract_failed [of env cs _ "\<lambda>r. r"]
      by (auto simp add: extract_ips_from_file_def)
  qed
qed

text \<open>
  C6. The two lists returned by \<^verbatim>\<open>extract_ips_from_file\<close> have no member in common, for
  every file, every chunk size and every outcome of the reads: a member of the first list
  passes \<^verbatim>\<open>validate_ip\<close> and a member of the second fails it, whatever chunks it came from.
\<close>

theorem result_lists_disjoint:
  "set (fst (extract_ips_from_file env chunk_size))
     \<inter> set (snd (extract_ips_from_file env chunk_size)) = {}"
proof (cases env chunk_size rule: extract_cases)
  case 1
  then show ?thesis by simp
next
  case (2 chunks)
  have "finite (\<Union>(fst ` process_chunk ` set chunks))" "finite (\<Union>(snd ` process_chunk ` set chunks))"
    by (simp_all add: finite_process_chunk)
  with 2 show ?thesis
    by (auto dest: private_valid public_invalid)
qed

text \<open>
  C7. The result is a function of the file and of the chunk size, and the order in which
  the futures complete does not change it: with any rearrangement of the list of chunk
  results in place of the order of submission the returned pair is the same.
\<close>

theorem completion_order_irrelevant:
  assumes "\<And>rs. mset (completion rs) = mset rs"
  shows "extract_ips_completed completion env chunk_size = extract_ips_from_file env chunk_size"
proof -
  have "collect_results (completion rs) = collect_results rs" for rs
    using assms by (rule collect_results_mset)
  then show ?thesis
    by (simp add: extract_ips_from_file_def extract_ips_completed_def split: sum.splits)
qed

theorem completion_order_irrelevant_witness:
  "extract_ips_completed rev (readable_file ''10.0.0.5 and 8.8.8.8 or 10.0.0.5'') 9
     = extract_ips_from_file (readable_file ''10.0.0.5 and 8.8.8.8 or 10.0.0.5'') 9
   \<and> extract_ips_from_file (readable_file ''10.0.0.5 and 8.8.8.8 or 10.0.0.5'') 9 = ([''10.0.0.5''], [])"
proof -
  have "extract_ips_from_file (readable_file ''10.0.0.5 and 8.8.8.8 or 10.0.0.5'') 9 = ([''10.0.0.5''], [])"
    by code_simp
  moreover have "extract_ips_completed rev (readable_file ''10.0.0.5 and 8.8.8.8 or 10.0.0.5'') 9
     = extract_ips_from_file (readable_file ''10.0.0.5 and 8.8.8.8 or 10.0.0.5'') 9"
    by (rule completion_order_irrelevant) simp
  ultimately show ?thesis by blast
qed

section \<open>Reading the chunks\<close>

lemma readable_file_simps [simp]:
  "is_file (readable_file data)" "content (readable_file data) = data"
  "open_ok (readable_file data)" "read_error_at (readable_file data) = None"
  "read_limit (readable_file data) = 1073741824"
  by (simp_all add: readable_file_def)

lemma file_read_take:
  assumes "0 \<le> cs" and "cs \<le> read_limit env" and "cs \<le> PY_SSIZE_T_MAX - 33"
  shows "file_read env cs rest = Inr (take (nat cs) rest)"
  using assms by (simp add: file_read_def)

lemma file_read_Inr:
  "0 \<le> cs \<Longrightarrow> file_read env cs rest = Inr chunk \<Longrightarrow> chunk = take (nat cs) rest"
  by (auto simp: file_read_def split: if_splits)



text \<open>A read of a size that \<^verbatim>\<open>read\<close> refuses, or for which there is no memory, fails.\<close>

lemma file_read_refused:
  "chunk_size < - 1 \<or> PY_SSIZE_T_MAX - 33 < chunk_size \<or> (0 \<le> chunk_size \<and> read_limit env < chunk_size)
    \<Longrightarrow> \<exists>e. file_read env chunk_size rest = Inl e"
  by (auto simp: file_read_def PY_SSIZE_T_MAX_def)

lemma extract_refused:
  assumes "chunk_size < - 1 \<or> PY_SSIZE_T_MAX - 33 < chunk_size
    \<or> (0 \<le> chunk_size \<and> read_limit env < chunk_size)"
  shows "extract_ips_completed completion env chunk_size = ([], [])"
proof -
  from file_read_refused [OF assms] obtain e where "file_read env chunk_size (content env) = Inl e"
    by blast
  then have "\<exists>e. read_chunks env chunk_size 0 (content env) = Inl e"
    by (simp add: read_chunks.simps [of env chunk_size 0 "content env"])
  then show ?thesis
    using extract_failed by blast
qed

lemma extract_refused_example:
  "extract_ips_from_file (readable_file ''10.0.0.5 8.8.8.8'') 9223372036854775808 = ([], [])
   \<and> extract_ips_from_file (readable_file ''10.0.0.5 8.8.8.8'') (- 2) = ([], [])
   \<and> extract_ips_from_file (readable_file ''10.0.0.5 8.8.8.8'') 1024
       = ([''10.0.0.5''], [''8.8.8.8''])"
proof -
  have "extract_ips_from_file (readable_file ''10.0.0.5 8.8.8.8'') 9223372036854775808 = ([], [])"
    unfolding extract_ips_from_file_def
    by (rule extract_refused) (simp add: PY_SSIZE_T_MAX_def)
  moreover have "extract_ips_from_file (readable_file ''10.0.0.5 8.8.8.8'') (- 2) = ([], [])"
    unfolding extract_ips_from_file_def
    by (rule extract_refused) simp
  moreover have "extract_ips_from_file (readable_file ''10.0.0.5 8.8.8.8'') 1024
       = ([''10.0.0.5''], [''8.8.8.8''])"
    by code_simp
  ultimately show ?thesis by blast
qed

lemma read_chunks_Nil:
  assumes "0 \<le> cs" and "cs \<le> read_limit env" and "cs \<le> PY_SSIZE_T_MAX - 33"
  shows "read_chunks env cs k [] = (if read_error_at env = Some k then Inl OSError else Inr [])"
  by (simp add: read_chunks.simps [of env cs k "[]"] file_read_take [OF assms])

lemma read_chunks_whole:
  assumes "rest \<noteq> []" and "int (length rest) \<le> cs"
    and "cs \<le> read_limit env" and "cs \<le> PY_SSIZE_T_MAX - 33"
  shows "read_chunks env cs k rest =
    (if read_error_at env = Some k \<or> read_error_at env = Some (Suc k) then Inl OSError
     else Inr [rest])"
proof -
  from assms have cs: "0 \<le> cs" by simp
  with assms have "file_read env cs rest = Inr rest"
    by (simp add: file_read_take)
  with assms(1) show ?thesis
    by (simp add: read_chunks.simps [of env cs k rest] read_chunks_Nil [OF cs assms(3,4)])
qed




text \<open>
  A read that raises an I/O error is reached when the reads before it found as many
  bytes as they asked for, if none of them failed for another reason.
\<close>

lemma read_error_reached:
  "read_error_at env = Some (j + k) \<Longrightarrow> 0 < n \<Longrightarrow> k * n \<le> length rest
    \<Longrightarrow> \<exists>e. read_chunks env (int n) j rest = Inl e"
proof (induction k arbitrary: j rest)
  case 0
  then show ?case by (simp add: read_chunks.simps [of env "int n" j rest])
next
  case (Suc k)
  then have len: "n \<le> length rest" "k * n \<le> length (drop n rest)"
    by auto
  from Suc.prems(1) have nofail: "read_error_at env \<noteq> Some j" by simp
  show ?case
  proof (cases "file_read env (int n) rest")
    case (Inl e)
    with nofail show ?thesis
      by (simp add: read_chunks.simps [of env "int n" j rest])
  next
    case (Inr chunk)
    then have chunk: "chunk = take n rest"
      using file_read_Inr [of "int n" env rest chunk] by simp
    with len Suc.prems(2) have ne: "chunk \<noteq> []" "drop (length chunk) rest = drop n rest"
      by auto
    from Suc.prems(1) have "read_error_at env = Some (Suc j + k)" by simp
    from Suc.IH [OF this Suc.prems(2) len(2)] obtain e where
      "read_chunks env (int n) (Suc j) (drop n rest) = Inl e" by blast
    with nofail Inr ne show ?thesis
      by (simp add: read_chunks.simps [of env "int n" j rest])
  qed
qed

lemma extract_one_chunk:
  assumes "data \<noteq> []" and "int (length data) \<le> cs" and "cs \<le> 1073741824"
  shows "extract_ips_from_file (readable_file data) cs =
    (sorted_list_of_set (fst (process_chunk data)), sorted_list_of_set (snd (process_chunk data)))"
proof -
  from assms have "read_chunks (readable_file data) cs 0 data = Inr [data]"
    by (simp add: read_chunks_whole PY_SSIZE_T_MAX_def)
  then have "extract_ips_from_file (readable_file data) cs =
    (sorted_list_of_set (\<Union>(fst ` process_chunk ` set [data])),
     sorted_list_of_set (\<Union>(snd ` process_chunk ` set [data])))"
    using assms(1) by (intro extract_ok) simp_all
  then show ?thesis by simp
qed

text \<open>
  C4. The scenario, read with the default chunk size as one chunk: the private list is
  \<^verbatim>\<open>10.0.0.5\<close>, \<^verbatim>\<open>192.168.1.1\<close> in this order, the public list is \<^verbatim>\<open>8.8.8.8\<close>, and
  \<^verbatim>\<open>999.1.1.1\<close> and \<^verbatim>\<open>300.1.1.1\<close> are in neither.
\<close>

theorem scenario:
  "extract_ips_from_file
     (readable_file ''connect from 192.168.1.1 to 8.8.8.8 and 10.0.0.5; invalid 999.1.1.1 and 300.1.1.1'')
     1048576
   = ([''10.0.0.5'', ''192.168.1.1''], [''8.8.8.8''])"
proof -
  let ?data = "''connect from 192.168.1.1 to 8.8.8.8 and 10.0.0.5; invalid 999.1.1.1 and 300.1.1.1''"
  have "extract_ips_from_file (readable_file ?data) 1048576 =
    (sorted_list_of_set (fst (process_chunk ?data)), sorted_list_of_set (snd (process_chunk ?data)))"
    by (rule extract_one_chunk) simp_all
  also have "\<dots> = ([''10.0.0.5'', ''192.168.1.1''], [''8.8.8.8''])"
    by code_simp
  finally show ?thesis .
qed









text \<open>
  C5 as stated does not hold in the direction from the result to the failure: a readable
  file that is not empty and holds no address gives the empty pair too, with no failure
  of any kind.
\<close>

theorem empty_pair_without_failure:
  "extract_ips_from_file (readable_file ''no address in this line'') 1024 = ([], [])
   \<and> is_file (readable_file ''no address in this line'')
   \<and> open_ok (readable_file ''no address in this line'')
   \<and> content (readable_file ''no address in this line'') = ''no address in this line''
   \<and> read_error_at (readable_file ''no address in this line'') = None"
proof -
  have "process_chunk ''no address in this line'' = ({}, {})" by code_simp
  then have "extract_ips_from_file (readable_file ''no address in this line'') 1024 = ([], [])"
    using extract_one_chunk [of "''no address in this line''" 1024] by simp
  then show ?thesis by simp
qed

text \<open>
  C5, as the code has it. \<^verbatim>\<open>extract_ips_from_file\<close> returns the empty pair, as a value,
  when the path is no regular file, when the file is empty, when it cannot be opened, or
  when a \<^verbatim>\<open>read\<close> that the loop reaches raises an error: read number \<open>k\<close> is reached
  when the \<open>k\<close> reads before it found \<^verbatim>\<open>chunk_size\<close> bytes each. What the chunks read
  before the error hold is not returned.
\<close>

theorem empty_pair_on_failure:
  assumes "\<not> is_file env \<or> content env = [] \<or> \<not> open_ok env
    \<or> (\<exists>k. read_error_at env = Some k \<and> 0 < chunk_size
          \<and> int k * chunk_size \<le> int (length (content env)))"
  shows "extract_ips_from_file env chunk_size = ([], [])"
proof -
  have "\<exists>e. read_chunks env chunk_size 0 (content env) = Inl e"
    if k: "read_error_at env = Some k" "0 < chunk_size"
      "int k * chunk_size \<le> int (length (content env))" for k
  proof -
    from k(2) obtain n where n: "chunk_size = int n" "0 < n"
      by (metis zero_less_imp_eq_int)
    with k(3) have "k * n \<le> length (content env)"
      by (metis of_nat_le_iff of_nat_mult)
    with n read_error_reached [of env 0 k n "content env"] k(1) show ?thesis by simp
  qed
  with assms have "\<not> is_file env \<or> content env = [] \<or> \<not> open_ok env
     \<or> (\<exists>e. read_chunks env chunk_size 0 (content env) = Inl e)"
    by blast
  then show ?thesis
    unfolding extract_ips_from_file_def using extract_failed by blast
qed

theorem empty_pair_on_failure_witness:
  "extract_ips_from_file
     \<lparr>is_file = True, content = ''10.0.0.5 then 8.8.8.8'', open_ok = True,
      read_error_at = Some 1, read_limit = 1024\<rparr> 9
     = ([], [])
   \<and> process_chunk (take 9 ''10.0.0.5 then 8.8.8.8'') = ({''10.0.0.5''}, {})
   \<and> extract_ips_from_file
     \<lparr>is_file = False, content = ''10.0.0.5'', open_ok = True,
      read_error_at = None, read_limit = 1024\<rparr> 9 = ([], [])"
proof -
  have "extract_ips_from_file
     \<lparr>is_file = True, content = ''10.0.0.5 then 8.8.8.8'', open_ok = True,
      read_error_at = Some 1, read_limit = 1024\<rparr> 9
     = ([], [])"
    by (rule empty_pair_on_failure) simp
  moreover have "process_chunk (take 9 ''10.0.0.5 then 8.8.8.8'') = ({''10.0.0.5''}, {})"
    by code_simp
  moreover have "extract_ips_from_file
     \<lparr>is_file = False, content = ''10.0.0.5'', open_ok = True,
      read_error_at = None, read_limit = 1024\<rparr> 9 = ([], [])"
    by (rule empty_pair_on_failure) simp
  ultimately show ?thesis by blast
qed

lemma occurs_delimited_example:
  "occurs_delimited ''192.168.1.100'' ''    192.168.1.100''
   \<and> occurs_delimited ''8.8.8.8'' ''to 8.8.8.8;''
   \<and> \<not> occurs_delimited ''8.8.8.8'' ''to 18.8.8.8;''"
  by code_simp

text \<open>
  C10. There are an input and a chunk size of at least 15 for which the private list holds
  an address that occurs nowhere in the input as a token between word boundaries: with a
  chunk size of 15 the first chunk of the input \<^verbatim>\<open>    192.168.1.100\<close> ends after
  \<^verbatim>\<open>192.168.1.1\<close>, the end of the chunk is a word boundary, and \<^verbatim>\<open>192.168.1.1\<close> is
  returned.
\<close>

theorem spurious_address:
  "\<exists>data chunk_size ip. 15 \<le> chunk_size
     \<and> ip \<in> set (fst (extract_ips_from_file (readable_file data) chunk_size))
     \<and> \<not> occurs_delimited ip data"
proof -
  have "(15::int) \<le> 15
     \<and> ''192.168.1.1'' \<in> set (fst (extract_ips_from_file (readable_file ''    192.168.1.100'') 15))
     \<and> \<not> occurs_delimited ''192.168.1.1'' ''    192.168.1.100''"
    by code_simp
  then show ?thesis by blast
qed

end
